theory Spec2Isabelle
  imports Complex_Main "HOL-Library.Char_ord" "HOL-Library.List_Lexorder"
begin

section \<open>Floating-point numbers of the source\<close>

text \<open>
  Every number that \<^verbatim>\<open>analytics.py\<close> computes is a Python/NumPy float, that is an IEEE-754
  binary64 value. A float is represented here by the rational number it denotes, and every
  arithmetic operation returns the exact result rounded to the nearest binary64 value, ties
  to even (53 significant bits). Overflow, subnormal numbers, infinities and NaN are left
  out: all values of the program are percentages and ratios of document counts, far inside
  the normal range.
\<close>

text \<open>Rounding a rational to the nearest integer, ties to the even neighbour.\<close>

definition rhe :: "rat \<Rightarrow> int" where
  "rhe x = (let n = \<lfloor>x\<rfloor>; d = x - of_int n in
     if d < 1 / 2 then n else if 1 / 2 < d then n + 1 else if even n then n else n + 1)"

text \<open>The number of binary digits of a natural number.\<close>

fun blen :: "nat \<Rightarrow> nat" where
  "blen n = (if n = 0 then 0 else Suc (blen (n div 2)))"

declare blen.simps [simp del]

text \<open>The binary exponent \<open>e\<close> of a non-zero rational: \<open>2 powi e \<le> \<bar>x\<bar>\<close> and \<open>\<bar>x\<bar> < 2 powi (e + 1)\<close>.\<close>

definition binade :: "rat \<Rightarrow> int" where
  "binade x = (let a = \<bar>x\<bar> in
     if 1 \<le> a then int (blen (nat \<lfloor>a\<rfloor>)) - 1
     else (let b = int (blen (nat \<lfloor>1 / a\<rfloor>)) - 1 in
           if 2 powi (- b) \<le> a then - b else - b - 1))"

text \<open>The binary64 value nearest to a rational (round to nearest, ties to even).\<close>

definition fl :: "rat \<Rightarrow> rat" where
  "fl x = (if x = 0 then 0
           else (let u = 2 powi (binade x - 52) in of_int (rhe (x / u)) * u))"

definition fadd :: "rat \<Rightarrow> rat \<Rightarrow> rat" where
  "fadd x y = fl (x + y)"

definition fsub :: "rat \<Rightarrow> rat \<Rightarrow> rat" where
  "fsub x y = fl (x - y)"

definition fmul :: "rat \<Rightarrow> rat \<Rightarrow> rat" where
  "fmul x y = fl (x * y)"

definition fdiv :: "rat \<Rightarrow> rat \<Rightarrow> rat" where
  "fdiv x y = fl (x / y)"

text \<open>
  \<^verbatim>\<open>round(x, 1)\<close> on a NumPy float64, which is what \<^verbatim>\<open>round\<close> receives in
  \<^verbatim>\<open>mood_score\<close>, \<^verbatim>\<open>volatility_index\<close> and \<^verbatim>\<open>detect_narratives\<close> (the values
  come out of \<^verbatim>\<open>Series.get\<close>, \<^verbatim>\<open>Series.max\<close> or NumPy integer arithmetic): multiply by
  ten, round to the nearest integer with ties to even, divide by ten, each step in binary64.
  On the integers 0 and 100 and on 50.0, the only values that reach \<^verbatim>\<open>round\<close> there as
  plain Python numbers, Python's own \<^verbatim>\<open>round\<close> returns the same.
\<close>

definition round1 :: "rat \<Rightarrow> rat" where
  "round1 x = fdiv (of_int (rhe (fmul x 10))) 10"

text \<open>
  \<^verbatim>\<open>round(x, 1)\<close> on a Python float, which is what \<^verbatim>\<open>Series.items()\<close> hands to
  \<^verbatim>\<open>round\<close> in \<^verbatim>\<open>topic_emotion_correlation\<close>: the decimal with one digit nearest to the
  exact value of the float, ties to even, and then the binary64 value nearest to that
  decimal.
\<close>

definition py_round1 :: "rat \<Rightarrow> rat" where
  "py_round1 x = fl (of_int (rhe (x * 10)) / 10)"

section \<open>Data model\<close>

text \<open>
  One row of the label table. The \<^verbatim>\<open>topic\<close> column is optional for the table as a whole
  (\<^verbatim>\<open>"topic" in df.columns\<close>), so the table carries a flag and a row's \<open>topic\<close> is
  meaningful only when the flag is set; \<open>-1\<close> marks an outlier.
\<close>

record document =
  doc_text :: string
  sentiment :: string
  emotion :: string
  topic :: int

record dataframe =
  has_topic :: bool
  rows :: "document list"

text \<open>A pandas Series of floats indexed by label, in index order.\<close>

type_synonym series = "(string \<times> rat) list"

text \<open>A row of the topic-info table; the \<^verbatim>\<open>Name\<close> entry may be missing.\<close>

record topic_row =
  Topic :: int
  Name :: "string option"

record correlation_entry =
  ce_topic :: int
  ce_emotion :: string
  ce_percentage :: rat

record topic_summary =
  topic_id :: int
  narrative :: string
  document_count :: nat
  sentiment_score :: rat
  dominant_emotion :: string
  positive_pct :: rat
  negative_pct :: rat

datatype py_error = KeyError

text \<open>
  The insights are f-strings; each is represented by its template and the values
  interpolated into it, leaving the rendering of numbers to text aside.
\<close>

datatype insight =
    HighlyPositiveMood rat
  | ModeratelyPositive rat
  | MixedSentiment rat
  | NegativeMood rat
  | StrongEmotionalSignal string rat
  | DiverseEmotions
  | SampleSize nat
  | TopNarrative string nat rat

datatype insight_kind = MoodStatement | EmotionStatement | SampleSizeStatement | NarrativeStatement

fun kind_of :: "insight \<Rightarrow> insight_kind" where
  "kind_of (HighlyPositiveMood _) = MoodStatement"
| "kind_of (ModeratelyPositive _) = MoodStatement"
| "kind_of (MixedSentiment _) = MoodStatement"
| "kind_of (NegativeMood _) = MoodStatement"
| "kind_of (StrongEmotionalSignal _ _) = EmotionStatement"
| "kind_of DiverseEmotions = EmotionStatement"
| "kind_of (SampleSize _) = SampleSizeStatement"
| "kind_of (TopNarrative _ _ _) = NarrativeStatement"

section \<open>The pandas operations the source calls\<close>

text \<open>\<^verbatim>\<open>Series.unique()\<close>: the distinct values in order of first appearance.\<close>

definition unique :: "'a list \<Rightarrow> 'a list" where
  "unique xs = rev (remdups (rev xs))"

text \<open>
  \<^verbatim>\<open>Series.value_counts()\<close>: each distinct label with its count, most frequent first;
  labels with equal counts keep their order of first appearance.
\<close>

definition value_counts :: "string list \<Rightarrow> (string \<times> nat) list" where
  "value_counts xs =
     sort_key (\<lambda>(k, c). - int c) (map (\<lambda>k. (k, count_list xs k)) (unique xs))"

text \<open>\<^verbatim>\<open>value_counts(normalize=True)\<close> divides each count by the number of values.\<close>

definition value_counts_normalize :: "string list \<Rightarrow> series" where
  "value_counts_normalize xs =
     map (\<lambda>(k, c). (k, fdiv (of_nat c) (of_nat (length xs)))) (value_counts xs)"

definition series_mul :: "series \<Rightarrow> rat \<Rightarrow> series" where
  "series_mul s c = map (\<lambda>(k, v). (k, fmul v c)) s"

text \<open>\<^verbatim>\<open>Series.get(key, default)\<close>.\<close>

definition series_get :: "series \<Rightarrow> string \<Rightarrow> rat \<Rightarrow> rat" where
  "series_get s k d = (case map_of s k of Some v \<Rightarrow> v | None \<Rightarrow> d)"

text \<open>\<^verbatim>\<open>Series.idxmax()\<close> of a non-empty Series: the label of the first maximal value.\<close>

fun idxmax_from :: "string \<Rightarrow> rat \<Rightarrow> series \<Rightarrow> string" where
  "idxmax_from k v [] = k"
| "idxmax_from k v ((k', v') # s) = (if v < v' then idxmax_from k' v' s else idxmax_from k v s)"

text \<open>
  \<^verbatim>\<open>Series.mode()\<close>: the values of maximal count, sorted in ascending order (strings
  compare character by character, by code point).
\<close>

definition series_mode :: "string list \<Rightarrow> string list" where
  "series_mode xs =
     (let keys = unique xs; m = fold max (map (count_list xs) keys) 0
      in sort (filter (\<lambda>k. count_list xs k = m) keys))"

text \<open>Position \<open>0\<close> of a Series: \<^verbatim>\<open>s[0]\<close> raises \<^verbatim>\<open>KeyError\<close> when there is none.\<close>

definition series_first :: "'a list \<Rightarrow> py_error + 'a" where
  "series_first xs = (case xs of [] \<Rightarrow> Inl KeyError | x # _ \<Rightarrow> Inr x)"

text \<open>
  \<^verbatim>\<open>pd.DataFrame(records).sort_values("document_count", ascending=False)\<close>: a frame built
  from an empty list of records has no columns, and sorting it by a column raises
  \<^verbatim>\<open>KeyError\<close>; otherwise pandas computes the positions of the rows in order of
  descending count and takes the rows at these positions. The positions come from NumPy's
  \<^verbatim>\<open>argsort\<close> with the default \<^verbatim>\<open>kind='quicksort'\<close>, which is not stable: which of
  several rows with the same count comes first is the choice of the NumPy build, and the
  source fixes none. That choice is the parameter \<open>tie\<close>: for the column of counts \<open>keys\<close>,
  \<open>tie keys i\<close> is the rank of row \<open>i\<close> among the rows of its count (rows of equal count and
  equal rank keep their order). Every order of the tied rows is the order of some \<open>tie\<close>.
\<close>

definition sort_values_document_count ::
    "(int list \<Rightarrow> nat \<Rightarrow> nat) \<Rightarrow> topic_summary list \<Rightarrow> py_error + topic_summary list" where
  "sort_values_document_count tie ns =
     (if ns = [] then Inl KeyError
      else (let keys = map (\<lambda>n. int (document_count n)) ns;
                indexer = sort_key (\<lambda>i. - (keys ! i)) (sort_key (tie keys) [0..<length ns])
            in Inr (map (\<lambda>i. ns ! i) indexer)))"

text \<open>Python's \<^verbatim>\<open>sum\<close> of floats, starting from the integer \<open>0\<close> and adding from the left.\<close>

definition py_sum :: "rat list \<Rightarrow> rat" where
  "py_sum xs = foldl fadd 0 xs"

text \<open>Decimal rendering of an integer, for \<^verbatim>\<open>f"Topic {topic_id}"\<close>.\<close>

fun string_of_nat :: "nat \<Rightarrow> string" where
  "string_of_nat n =
     (if n < 10 then [char_of (48 + n)]
      else string_of_nat (n div 10) @ [char_of (48 + n mod 10)])"

declare string_of_nat.simps [simp del]

definition string_of_int :: "int \<Rightarrow> string" where
  "string_of_int i = (if i < 0 then CHR ''-'' # string_of_nat (nat (- i)) else string_of_nat (nat i))"

text \<open>\<^verbatim>\<open>str.title()\<close> on ASCII text: a letter after a letter is lowered, any other letter is raised.\<close>

definition is_upper :: "char \<Rightarrow> bool" where
  "is_upper c = (65 \<le> (of_char c :: nat) \<and> (of_char c :: nat) \<le> 90)"

definition is_lower :: "char \<Rightarrow> bool" where
  "is_lower c = (97 \<le> (of_char c :: nat) \<and> (of_char c :: nat) \<le> 122)"

definition to_upper :: "char \<Rightarrow> char" where
  "to_upper c = (if is_lower c then char_of ((of_char c :: nat) - 32) else c)"

definition to_lower :: "char \<Rightarrow> char" where
  "to_lower c = (if is_upper c then char_of ((of_char c :: nat) + 32) else c)"

fun title_from :: "bool \<Rightarrow> string \<Rightarrow> string" where
  "title_from prev [] = []"
| "title_from prev (c # cs) =
     (if prev then to_lower c else to_upper c) # title_from (is_upper c \<or> is_lower c) cs"

definition title :: "string \<Rightarrow> string" where
  "title s = title_from False s"

section \<open>The functions of analytics.py\<close>

definition compute_distributions :: "dataframe \<Rightarrow> series \<times> series" where
  "compute_distributions df =
     (let sentiment_pct = series_mul (value_counts_normalize (map sentiment (rows df))) 100;
          emotion_pct = series_mul (value_counts_normalize (map emotion (rows df))) 100
      in (sentiment_pct, emotion_pct))"

definition neg_emotions :: "string list" where
  "neg_emotions = [''anger'', ''disgust'', ''fear'', ''sadness'']"

definition mood_score :: "series \<Rightarrow> series \<Rightarrow> rat" where
  "mood_score sentiment_pct emotion_pct =
     (let positive = series_get sentiment_pct ''POSITIVE'' 0;
          negative = series_get sentiment_pct ''NEGATIVE'' 0;
          emotion_penalty = fdiv (py_sum (map (\<lambda>e. series_get emotion_pct e 0) neg_emotions)) 4;
          base_score = fsub positive negative;
          adjusted_score = fsub base_score (fmul emotion_penalty (fl (3 / 10)));
          final_score = max 0 (min 100 (fadd 50 (fdiv adjusted_score 2)))
      in round1 final_score)"

definition volatility_index :: "series \<Rightarrow> rat" where
  "volatility_index emotion_pct =
     (case map snd emotion_pct of
        [] \<Rightarrow> 0
      | v # vs \<Rightarrow>
          (let concentration = fdiv (fsub (fold max vs v) (fold min vs v)) 100;
               volatility = fmul 100 (fsub 1 concentration)
           in round1 volatility))"

definition topic_emotion_correlation :: "dataframe \<Rightarrow> correlation_entry list option" where
  "topic_emotion_correlation df =
     (if \<not> has_topic df then None
      else Some (concat (map (\<lambda>t.
        if t = - 1 then []
        else (let topic_df = filter (\<lambda>d. topic d = t) (rows df);
                  emotion_dist = series_mul (value_counts_normalize (map emotion topic_df)) 100
              in map (\<lambda>(e, pct). \<lparr>ce_topic = t, ce_emotion = e, ce_percentage = py_round1 pct\<rparr>)
                   emotion_dist))
        (unique (map topic (rows df))))))"

text \<open>The body of the loop over the rows of the topic-info table: nothing for a skipped row.\<close>

definition narrative_of :: "document list \<Rightarrow> topic_row \<Rightarrow> py_error + topic_summary option" where
  "narrative_of docs row =
     (let t = Topic row in
      if t = - 1 then Inr None
      else (let topic_docs = filter (\<lambda>d. topic d = t) docs in
        if length topic_docs = 0 then Inr None
        else (let topic_name = (case Name row of Some n \<Rightarrow> n | None \<Rightarrow> ''Topic '' @ string_of_int t);
                  pos_count = length (filter (\<lambda>d. sentiment d = ''POSITIVE'') topic_docs);
                  neg_count = length (filter (\<lambda>d. sentiment d = ''NEGATIVE'') topic_docs);
                  total = length topic_docs;
                  sentiment_ratio =
                    (if total > 0 then fdiv (of_int (int pos_count - int neg_count)) (of_nat total)
                     else 0)
              in case (if length topic_docs > 0 then series_first (series_mode (map emotion topic_docs))
                       else Inr ''neutral'') of
                   Inl err \<Rightarrow> Inl err
                 | Inr dominant \<Rightarrow> Inr (Some
                     \<lparr>topic_id = t,
                      narrative = topic_name,
                      document_count = total,
                      sentiment_score = round1 (fmul sentiment_ratio 100),
                      dominant_emotion = dominant,
                      positive_pct =
                        (if total > 0 then round1 (fmul (fdiv (of_nat pos_count) (of_nat total)) 100)
                         else 0),
                      negative_pct =
                        (if total > 0 then round1 (fmul (fdiv (of_nat neg_count) (of_nat total)) 100)
                         else 0)\<rparr>))))"

fun narratives_loop :: "document list \<Rightarrow> topic_row list \<Rightarrow> py_error + topic_summary list" where
  "narratives_loop docs [] = Inr []"
| "narratives_loop docs (row # info) =
     (case narrative_of docs row of
        Inl err \<Rightarrow> Inl err
      | Inr new \<Rightarrow>
          (case narratives_loop docs info of
             Inl err \<Rightarrow> Inl err
           | Inr rest \<Rightarrow> Inr ((case new of None \<Rightarrow> [] | Some n \<Rightarrow> [n]) @ rest)))"

text \<open>
  \<open>detect_narratives\<close> takes the order of rows with equal counts, which NumPy's sort decides,
  as its first argument.
\<close>

definition detect_narratives ::
    "(int list \<Rightarrow> nat \<Rightarrow> nat) \<Rightarrow> dataframe \<Rightarrow> topic_row list option \<Rightarrow>
       py_error + topic_summary list option" where
  "detect_narratives tie df topic_info =
     (case topic_info of
        None \<Rightarrow> Inr None
      | Some info \<Rightarrow>
          if \<not> has_topic df then Inr None
          else (case narratives_loop (rows df) info of
                  Inl err \<Rightarrow> Inl err
                | Inr narratives \<Rightarrow>
                    (case sort_values_document_count tie narratives of
                       Inl err \<Rightarrow> Inl err
                     | Inr result \<Rightarrow> Inr (Some result))))"

definition get_insights ::
    "dataframe \<Rightarrow> series \<Rightarrow> series \<Rightarrow> rat \<Rightarrow> topic_summary list option \<Rightarrow> insight list" where
  "get_insights df sentiment_pct emotion_pct mood narratives =
     (let mood_insight =
            (if mood \<ge> 70 then HighlyPositiveMood mood
             else if mood \<ge> 50 then ModeratelyPositive mood
             else if mood \<ge> 30 then MixedSentiment mood
             else NegativeMood mood);
          dominant = (case emotion_pct of [] \<Rightarrow> ''neutral'' | (k, v) # s \<Rightarrow> idxmax_from k v s);
          emotion_strength = (case map snd emotion_pct of [] \<Rightarrow> 0 | v # vs \<Rightarrow> fold max vs v);
          emotion_insight =
            (if emotion_strength > 40 then StrongEmotionalSignal (title dominant) emotion_strength
             else DiverseEmotions);
          total_analyzed = length (rows df);
          topic_insights =
            (case narratives of
               None \<Rightarrow> []
             | Some ns \<Rightarrow>
                 (case ns of
                    [] \<Rightarrow> []
                  | top_narrative # _ \<Rightarrow>
                      [TopNarrative (narrative top_narrative) (document_count top_narrative)
                         (sentiment_score top_narrative)]))
      in [mood_insight, emotion_insight, SampleSize total_analyzed] @ topic_insights)"

section \<open>The wording of the specification\<close>

text \<open>
  The specification's Distribution, in its own words: each distinct observed label with its
  percentage of the corpus (count of the label divided by the total document count, times
  100), rounded to one decimal place. It is stated for comparison with what
  \<open>compute_distributions\<close> computes.
\<close>

definition spec_distribution :: "string list \<Rightarrow> series" where
  "spec_distribution xs =
     map (\<lambda>(k, v). (k, round1 v)) (series_mul (value_counts_normalize xs) 100)"

text \<open>
  The specification's rule for the dominant emotion, in its own words: the first label to
  reach the maximum count in the selection's insertion order. It is stated for comparison
  with what \<open>detect_narratives\<close> computes.
\<close>

fun first_reaching :: "nat \<Rightarrow> string list \<Rightarrow> string list \<Rightarrow> string option" where
  "first_reaching m seen [] = None"
| "first_reaching m seen (x # xs) =
     (if count_list (x # seen) x = m then Some x else first_reaching m (x # seen) xs)"

definition spec_dominant_emotion :: "string list \<Rightarrow> string option" where
  "spec_dominant_emotion xs = first_reaching (fold max (map (count_list xs) xs) 0) [] xs"

section \<open>Example inputs\<close>

text \<open>The four documents of the end-to-end scenario: no topic column.\<close>

definition ex_scenario :: dataframe where
  "ex_scenario = \<lparr>has_topic = False, rows =
     [\<lparr>doc_text = ''a'', sentiment = ''POSITIVE'', emotion = ''joy'', topic = 0\<rparr>,
      \<lparr>doc_text = ''b'', sentiment = ''POSITIVE'', emotion = ''joy'', topic = 0\<rparr>,
      \<lparr>doc_text = ''c'', sentiment = ''NEGATIVE'', emotion = ''anger'', topic = 0\<rparr>,
      \<lparr>doc_text = ''d'', sentiment = ''NEUTRAL'', emotion = ''neutral'', topic = 0\<rparr>]\<rparr>"

text \<open>Sixteen documents: one positive and joyful, fifteen negative and angry.\<close>

definition ex_sixteen :: dataframe where
  "ex_sixteen = \<lparr>has_topic = False, rows =
     \<lparr>doc_text = ''p'', sentiment = ''POSITIVE'', emotion = ''joy'', topic = 0\<rparr> #
     replicate 15 \<lparr>doc_text = ''n'', sentiment = ''NEGATIVE'', emotion = ''anger'', topic = 0\<rparr>\<rparr>"

text \<open>A two-document table with topics: one clustered document and one outlier.\<close>

definition ex_tagged :: dataframe where
  "ex_tagged = \<lparr>has_topic = True, rows =
     [\<lparr>doc_text = ''a'', sentiment = ''POSITIVE'', emotion = ''joy'', topic = 0\<rparr>,
      \<lparr>doc_text = ''b'', sentiment = ''NEGATIVE'', emotion = ''anger'', topic = - 1\<rparr>]\<rparr>"

text \<open>A table with topics where every document is an outlier.\<close>

definition ex_outliers :: dataframe where
  "ex_outliers = \<lparr>has_topic = True, rows =
     [\<lparr>doc_text = ''a'', sentiment = ''POSITIVE'', emotion = ''joy'', topic = - 1\<rparr>,
      \<lparr>doc_text = ''b'', sentiment = ''NEGATIVE'', emotion = ''anger'', topic = - 1\<rparr>]\<rparr>"

text \<open>A table without a topic column.\<close>

definition ex_untagged :: dataframe where
  "ex_untagged = \<lparr>has_topic = False, rows =
     [\<lparr>doc_text = ''a'', sentiment = ''POSITIVE'', emotion = ''joy'', topic = 0\<rparr>]\<rparr>"

text \<open>Two documents of one topic whose emotions tie: joy comes first, anger second.\<close>

definition ex_tie :: dataframe where
  "ex_tie = \<lparr>has_topic = True, rows =
     [\<lparr>doc_text = ''a'', sentiment = ''POSITIVE'', emotion = ''joy'', topic = 0\<rparr>,
      \<lparr>doc_text = ''b'', sentiment = ''NEGATIVE'', emotion = ''anger'', topic = 0\<rparr>]\<rparr>"

definition ex_tie_summary :: topic_summary where
  "ex_tie_summary = \<lparr>topic_id = 0, narrative = ''0_tax_budget'', document_count = 2,
     sentiment_score = 0, dominant_emotion = ''anger'', positive_pct = 50, negative_pct = 50\<rparr>"

text \<open>Eighty documents of one topic: 31 positive and 49 negative.\<close>

definition ex_split :: dataframe where
  "ex_split = \<lparr>has_topic = True, rows =
     replicate 31 \<lparr>doc_text = ''p'', sentiment = ''POSITIVE'', emotion = ''joy'', topic = 0\<rparr> @
     replicate 49 \<lparr>doc_text = ''n'', sentiment = ''NEGATIVE'', emotion = ''anger'', topic = 0\<rparr>\<rparr>"

text \<open>
  The summary of that topic; its percentages are the binary64 values nearest to 38.8 and
  61.3.
\<close>

definition ex_split_summary :: topic_summary where
  "ex_split_summary = \<lparr>topic_id = 0, narrative = ''0_tax_budget'', document_count = 80,
     sentiment_score = - 45 / 2, dominant_emotion = ''anger'',
     positive_pct = 2730307274093363 / 2 ^ 46, negative_pct = 4313604018090803 / 2 ^ 46\<rparr>"

text \<open>A topic summary as \<open>detect_narratives\<close> returns them.\<close>

definition ex_summary :: topic_summary where
  "ex_summary = \<lparr>topic_id = 0, narrative = ''0_budget_tax'', document_count = 2,
     sentiment_score = 50, dominant_emotion = ''joy'', positive_pct = 50, negative_pct = 0\<rparr>"

section \<open>Properties of binary64 rounding\<close>

lemma blen_bounds: "0 < n \<Longrightarrow> 2 ^ (blen n - 1) \<le> n \<and> n < 2 ^ blen n"
proof (induction n rule: blen.induct)
  case (1 n)
  show ?case
  proof (cases "n div 2 = 0")
    case True
    with "1.prems" have "n = 1" by (simp add: div_eq_0_iff) 
    then show ?thesis by (simp add: blen.simps)
  next
    case False
    then have pos: "0 < n div 2" by simp
    from "1.IH" "1.prems" pos
    have ih: "2 ^ (blen (n div 2) - 1) \<le> n div 2 \<and> n div 2 < 2 ^ blen (n div 2)" by simp
    have b: "blen n = Suc (blen (n div 2))" using "1.prems" by (simp add: blen.simps)
    have bp: "0 < blen (n div 2)" using pos by (simp add: blen.simps)
    then obtain k where k: "blen (n div 2) = Suc k" by (cases "blen (n div 2)") auto
    from ih k have "2 ^ k \<le> n div 2" "n div 2 < 2 ^ Suc k" by simp_all
    then have "2 * 2 ^ k \<le> n" "n < 2 * 2 ^ Suc k" by linarith+
    then show ?thesis using b k by simp
  qed
qed

lemma rhe_of_int [simp]: "rhe (of_int n) = n"
  by (simp add: rhe_def)

lemma rhe_mono: "x \<le> y \<Longrightarrow> rhe x \<le> rhe y"
proof -
  assume xy: "x \<le> y"
  have fl: "\<lfloor>x\<rfloor> \<le> \<lfloor>y\<rfloor>" using xy by (rule floor_mono)
  show ?thesis
  proof (cases "\<lfloor>x\<rfloor> = \<lfloor>y\<rfloor>")
    case True
    then show ?thesis using xy by (auto simp: rhe_def Let_def)
  next
    case False
    with fl have "\<lfloor>x\<rfloor> + 1 \<le> \<lfloor>y\<rfloor>" by simp
    moreover have "rhe x \<le> \<lfloor>x\<rfloor> + 1" by (auto simp: rhe_def Let_def)
    moreover have "\<lfloor>y\<rfloor> \<le> rhe y" by (auto simp: rhe_def Let_def)
    ultimately show ?thesis by linarith
  qed
qed

lemma rhe_minus: "rhe (- x) = - rhe x"
proof (cases "x = of_int \<lfloor>x\<rfloor>")
  case True
  then obtain n where "x = of_int n" ..
  then show ?thesis by (simp flip: of_int_minus)
next
  case False
  then have lt: "of_int \<lfloor>x\<rfloor> < x" using of_int_floor_le [of x] by linarith
  have f: "\<lfloor>- x\<rfloor> = - \<lfloor>x\<rfloor> - 1"
    by (rule floor_unique) (use lt in \<open>simp_all, linarith\<close>)
  show ?thesis
    using False by (auto simp: rhe_def Let_def f)
qed

lemma rhe_le: "rat_of_int (rhe x) \<le> x + 1 / 2"
proof -
  define d where "d = x - rat_of_int \<lfloor>x\<rfloor>"
  have fx: "rat_of_int \<lfloor>x\<rfloor> = x - d" by (simp add: d_def)
  have d0: "0 \<le> d" unfolding d_def by linarith
  consider "d < 1 / 2" | "\<not> d < 1 / 2"  by blast
  then show ?thesis
  proof cases
    case 1
    then have "rhe x = \<lfloor>x\<rfloor>" by (simp add: rhe_def Let_def d_def)
    then show ?thesis using d0 fx by simp
  next
    case 2
    have "rhe x \<le> \<lfloor>x\<rfloor> + 1" by (simp add: rhe_def Let_def)
    then have "rat_of_int (rhe x) \<le> rat_of_int (\<lfloor>x\<rfloor> + 1)" by (simp only: of_int_le_iff)
    then show ?thesis using 2 fx by simp
  qed
qed

lemma rhe_nonneg: "0 \<le> x \<Longrightarrow> 0 \<le> rhe x"
  using rhe_mono [of 0 x] rhe_of_int [of 0] by simp

lemma floor_blen_bounds:
  assumes "1 \<le> (a::rat)"
  shows "0 < blen (nat \<lfloor>a\<rfloor>) \<and> 2 ^ (blen (nat \<lfloor>a\<rfloor>) - 1) \<le> a \<and> a < 2 ^ blen (nat \<lfloor>a\<rfloor>)"
proof -
  define n where "n = nat \<lfloor>a\<rfloor>"
  have npos: "0 < n" using assms by (simp add: n_def)
  from blen_bounds [OF npos] have b: "2 ^ (blen n - 1) \<le> n" "Suc n \<le> 2 ^ blen n" by simp_all
  have bl: "0 < blen n" using npos by (simp add: blen.simps)
  have nn: "rat_of_nat n = of_int \<lfloor>a\<rfloor>"
    using assms by (simp add: n_def)
  have na: "rat_of_nat n \<le> a" "a < rat_of_nat n + 1"
    unfolding nn by linarith+
  have "rat_of_nat (2 ^ (blen n - 1)) \<le> rat_of_nat n"
    using b(1) by (simp only: of_nat_le_iff)
  then have 1: "(2::rat) ^ (blen n - 1) \<le> rat_of_nat n" by simp
  have "rat_of_nat (Suc n) \<le> rat_of_nat (2 ^ blen n)"
    using b(2) by (simp only: of_nat_le_iff)
  then have 2: "rat_of_nat n + 1 \<le> 2 ^ blen n" by simp
  from 1 2 na bl show ?thesis unfolding n_def [symmetric] by linarith
qed

lemma pow2_int_Suc: "(2::rat) powi (int k) = 2 ^ k" "0 < k \<Longrightarrow> (2::rat) powi (int k - 1) = 2 ^ (k - 1)"
proof -
  show "(2::rat) powi (int k) = 2 ^ k" by simp
  assume "0 < k"
  then obtain j where "k = Suc j" by (cases k) auto
  then show "(2::rat) powi (int k - 1) = 2 ^ (k - 1)" by simp
qed

lemma binade_bounds:
  assumes "x \<noteq> 0"
  shows "2 powi binade x \<le> \<bar>x\<bar> \<and> \<bar>x\<bar> < 2 powi (binade x + 1)"
proof -
  define a where "a = \<bar>x\<bar>"
  have apos: "0 < a" using assms by (simp add: a_def)
  show ?thesis
  proof (cases "1 \<le> a")
    case True
    define k where "k = blen (nat \<lfloor>a\<rfloor>)"
    have e: "binade x = int k - 1"
      using True by (simp add: binade_def a_def k_def Let_def)
    from floor_blen_bounds [OF True]
    have b: "0 < k" "2 ^ (k - 1) \<le> a" "a < 2 ^ k" by (simp_all add: k_def)
    show ?thesis
      unfolding e a_def [symmetric] using b by (simp add: pow2_int_Suc)
  next
    case False
    define k where "k = blen (nat \<lfloor>1 / a\<rfloor>)"
    define b where "b = int k - 1"
    have "1 \<le> 1 / a" using False apos by simp
    from floor_blen_bounds [OF this]
    have bb: "0 < k" "2 ^ (k - 1) \<le> 1 / a" "1 / a < 2 ^ k" by (simp_all add: k_def)
    have pb: "(2::rat) powi b = 2 ^ (k - 1)" unfolding b_def using bb(1) by (rule pow2_int_Suc)
    have pb1: "(2::rat) powi (b + 1) = 2 ^ k" unfolding b_def by simp
    have "a * 2 ^ (k - 1) \<le> 1" using bb(2) apos by (simp add: field_simps)
    then have up: "a \<le> 2 powi (- b)"
      by (simp add: power_int_minus pb field_simps)
    have "1 < a * 2 ^ k" using bb(3) apos by (simp add: field_simps)
    then have "2 powi (- (b + 1)) < a"
      unfolding power_int_minus pb1 by (simp add: field_simps)
    moreover have "- (b + 1) = - b - 1" by simp
    ultimately have lo: "2 powi (- b - 1) < a" by (simp only:)
    have e: "binade x = (if 2 powi (- b) \<le> a then - b else - b - 1)"
      using False by (simp add: binade_def a_def k_def b_def Let_def)
    show ?thesis
    proof (cases "2 powi (- b) \<le> a")
      case True
      have "(2::rat) powi (- b) < 2 powi (- b + 1)"
        by (rule power_int_strict_increasing) simp_all
      with up True show ?thesis unfolding e a_def [symmetric] by simp
    next
      case False
      then have "a < 2 powi (- b)" by simp
      moreover have "- b - 1 + 1 = - b" by simp
      ultimately show ?thesis unfolding e a_def [symmetric] using False lo by simp
    qed
  qed
qed

lemma pow2_less_imp_less:
  assumes "(2::rat) powi m < 2 powi n"
  shows "m < n"
proof (rule ccontr)
  assume "\<not> m < n"
  then have "n \<le> m" by simp
  then have "(2::rat) powi n \<le> 2 powi m"
    by (rule power_int_increasing) simp
  with assms show False by simp
qed

lemma binade_unique:
  assumes "2 powi e \<le> \<bar>x\<bar>" "\<bar>x\<bar> < 2 powi (e + 1)"
  shows "binade x = e"
proof -
  have "(0::rat) < 2 powi e" by simp
  then have "0 < \<bar>x\<bar>" using assms(1) by linarith
  then have x0: "x \<noteq> 0" by auto
  from binade_bounds [OF x0]
  have b: "2 powi binade x \<le> \<bar>x\<bar>" "\<bar>x\<bar> < 2 powi (binade x + 1)" by simp_all
  have "(2::rat) powi e < 2 powi (binade x + 1)" using assms(1) b(2) by linarith
  then have 1: "e < binade x + 1" by (rule pow2_less_imp_less)
  have "(2::rat) powi binade x < 2 powi (e + 1)" using assms(2) b(1) by linarith
  then have 2: "binade x < e + 1" by (rule pow2_less_imp_less)
  from 1 2 show ?thesis by simp
qed

lemma binade_minus [simp]: "binade (- x) = binade x"
  by (simp add: binade_def)

lemma fl_zero [simp]: "fl 0 = 0"
  by (simp add: fl_def)

lemma fl_minus: "fl (- x) = - fl x"
  by (simp add: fl_def Let_def rhe_minus)

lemma pow2_split:
  assumes "u = (2::rat) powi (e - 52)"
  shows "2 powi e = 2 ^ 52 * u" "2 powi (e + 1) = 2 ^ 53 * u"
proof -
  have "(2::rat) powi (52 + (e - 52)) = 2 powi 52 * 2 powi (e - 52)"
    by (subst power_int_add) simp_all
  moreover have "52 + (e - 52) = e" by simp
  ultimately have "(2::rat) powi e = 2 powi 52 * 2 powi (e - 52)" by (simp only:)
  then show "2 powi e = 2 ^ 52 * u" by (simp add: assms)
  have "(2::rat) powi (53 + (e - 52)) = 2 powi 53 * 2 powi (e - 52)"
    by (subst power_int_add) simp_all
  moreover have "53 + (e - 52) = e + 1" by simp
  ultimately have "(2::rat) powi (e + 1) = 2 powi 53 * 2 powi (e - 52)" by (simp only:)
  then show "2 powi (e + 1) = 2 ^ 53 * u" by (simp add: assms)
qed

lemma fl_binade_range:
  assumes "0 < x"
  shows "2 powi binade x \<le> fl x \<and> fl x \<le> 2 powi (binade x + 1)"
proof -
  define e where "e = binade x"
  define u :: rat where "u = 2 powi (e - 52)"
  have upos: "0 < u" by (simp add: u_def)
  note ps = pow2_split [OF u_def]
  from assms binade_bounds [of x]
  have b: "2 powi e \<le> x" "x < 2 powi (e + 1)" by (simp_all add: e_def)
  have f: "fl x = of_int (rhe (x / u)) * u"
    using assms by (simp add: fl_def Let_def e_def u_def)
  have "2 ^ 52 * u \<le> x" using b(1) ps(1) by simp
  then have lo: "of_int (2 ^ 52) \<le> x / u" using upos by (simp add: field_simps)
  have "x < 2 ^ 53 * u" using b(2) ps(2) by simp
  then have hi: "x / u \<le> of_int (2 ^ 53)" using upos by (simp add: field_simps)
  from rhe_mono [OF lo] have 1: "2 ^ 52 \<le> rhe (x / u)" by (simp only: rhe_of_int)
  from rhe_mono [OF hi] have 2: "rhe (x / u) \<le> 2 ^ 53" by (simp only: rhe_of_int)
  from 1 have "rat_of_int (2 ^ 52) \<le> of_int (rhe (x / u))" by (simp only: of_int_le_iff)
  then have 3: "2 ^ 52 * u \<le> of_int (rhe (x / u)) * u"
    using upos by (simp add: mult_le_cancel_right)
  from 2 have "rat_of_int (rhe (x / u)) \<le> of_int (2 ^ 53)" by (simp only: of_int_le_iff)
  then have 4: "of_int (rhe (x / u)) * u \<le> 2 ^ 53 * u"
    using upos by (simp add: mult_le_cancel_right)
  from 3 4 show ?thesis
    unfolding e_def [symmetric] f ps by simp
qed

lemma fl_pos_mono:
  assumes "0 < x" "x \<le> y"
  shows "fl x \<le> fl y"
proof -
  have ypos: "0 < y" using assms by linarith
  from assms(1) binade_bounds [of x]
  have bx: "2 powi binade x \<le> x" "x < 2 powi (binade x + 1)" by simp_all
  from ypos binade_bounds [of y]
  have yb: "2 powi binade y \<le> y" "y < 2 powi (binade y + 1)" by simp_all
  have "(2::rat) powi binade x < 2 powi (binade y + 1)" using bx(1) yb(2) assms(2) by linarith
  then have le: "binade x \<le> binade y" using pow2_less_imp_less by fastforce
  show ?thesis
  proof (cases "binade x = binade y")
    case True
    define u :: rat where "u = 2 powi (binade y - 52)"
    have upos: "0 < u" by (simp add: u_def)
    have "x / u \<le> y / u" using assms(2) upos by (simp add: divide_right_mono)
    then have "rhe (x / u) \<le> rhe (y / u)" by (rule rhe_mono)
    then have "rat_of_int (rhe (x / u)) * u \<le> of_int (rhe (y / u)) * u"
      using upos by (simp add: mult_le_cancel_right)
    then show ?thesis using assms(1) ypos True by (simp add: fl_def Let_def u_def)
  next
    case False
    with le have "binade x + 1 \<le> binade y" by simp
    then have "(2::rat) powi (binade x + 1) \<le> 2 powi binade y"
      by (rule power_int_increasing) simp
    moreover from fl_binade_range [OF assms(1)] have "fl x \<le> 2 powi (binade x + 1)" by simp
    moreover from fl_binade_range [OF ypos] have "2 powi binade y \<le> fl y" by simp
    ultimately show ?thesis by linarith
  qed
qed

lemma fl_nonneg: "0 \<le> x \<Longrightarrow> 0 \<le> fl x"
proof -
  assume "0 \<le> x"
  show ?thesis
  proof (cases "x = 0")
    case True then show ?thesis by simp
  next
    case False
    with \<open>0 \<le> x\<close> have "0 < x" by simp
    from fl_binade_range [OF this] have "2 powi binade x \<le> fl x" by simp
    moreover have "(0::rat) < 2 powi binade x" by simp
    ultimately show ?thesis by linarith
  qed
qed

lemma fl_mono:
  assumes "x \<le> y"
  shows "fl x \<le> fl y"
proof -
  consider "0 < x" | "x \<le> 0" "0 \<le> y" | "y < 0" by linarith
  then show ?thesis
  proof cases
    case 1
    then show ?thesis using assms by (rule fl_pos_mono)
  next
    case 2
    from 2(1) have "0 \<le> fl (- x)" by (intro fl_nonneg) simp
    then have "fl x \<le> 0" by (simp add: fl_minus)
    moreover from 2(2) have "0 \<le> fl y" by (rule fl_nonneg)
    ultimately show ?thesis by linarith
  next
    case 3
    then have "0 < - y" "- y \<le> - x" using assms by simp_all
    then have "fl (- y) \<le> fl (- x)" by (rule fl_pos_mono)
    then show ?thesis by (simp add: fl_minus)
  qed
qed

lemma fl_exact:
  assumes "\<bar>m\<bar> < 2 ^ 53"
  shows "fl (of_int m * 2 powi k) = of_int m * 2 powi k"
proof (cases "m = 0")
  case True
  then show ?thesis by simp
next
  case False
  define x :: rat where "x = of_int m * 2 powi k"
  have x0: "x \<noteq> 0" using False by (simp add: x_def)
  define e where "e = binade x"
  from binade_bounds [OF x0] have b: "2 powi e \<le> \<bar>x\<bar>" by (simp add: e_def)
  have ax: "\<bar>x\<bar> = of_int \<bar>m\<bar> * 2 powi k" by (simp add: x_def abs_mult)
  have "rat_of_int \<bar>m\<bar> < of_int (2 ^ 53)" using assms by (simp only: of_int_less_iff)
  then have "rat_of_int \<bar>m\<bar> < 2 ^ 53" by simp
  then have "rat_of_int \<bar>m\<bar> * 2 powi k < 2 ^ 53 * 2 powi k"
    by (rule mult_strict_right_mono) simp
  then have "\<bar>x\<bar> < 2 ^ 53 * 2 powi k" by (simp only: ax)
  also have "\<dots> = 2 powi (53 + k)" by (subst power_int_add) simp_all
  finally have "(2::rat) powi e < 2 powi (53 + k)" using b by linarith
  then have "e < 53 + k" by (rule pow2_less_imp_less)
  then have nn: "0 \<le> k - (e - 52)" by simp
  define j where "j = nat (k - (e - 52))"
  have "(2::rat) powi k = 2 powi ((k - (e - 52)) + (e - 52))" by simp
  also have "\<dots> = 2 powi (k - (e - 52)) * 2 powi (e - 52)" by (subst power_int_add) simp_all
  also have "(2::rat) powi (k - (e - 52)) = 2 ^ j" using nn by (simp add: j_def power_int_def)
  finally have pk: "(2::rat) powi k = 2 ^ j * 2 powi (e - 52)" .
  have "x / 2 powi (e - 52) = of_int m * 2 ^ j" by (simp add: x_def pk)
  also have "\<dots> = of_int (m * 2 ^ j)" by simp
  finally have q: "x / 2 powi (e - 52) = of_int (m * 2 ^ j)" .
  have "fl x = of_int (rhe (x / 2 powi (e - 52))) * 2 powi (e - 52)"
    using x0 by (simp add: fl_def Let_def e_def)
  also have "\<dots> = of_int (m * 2 ^ j) * 2 powi (e - 52)" by (simp only: q rhe_of_int)
  also have "\<dots> = x" by (simp add: x_def pk)
  finally show ?thesis by (simp add: x_def)
qed

lemma fl_of_int: "\<bar>m\<bar> < 2 ^ 53 \<Longrightarrow> fl (of_int m) = of_int m"
  using fl_exact [of m 0] by simp

lemma fl_one [simp]: "fl 1 = 1"
  using fl_of_int [of 1] by simp

lemma fl_rel_upper:
  assumes "0 \<le> x"
  shows "fl x \<le> x * (1 + 1 / 2 ^ 53)"
proof (cases "x = 0")
  case True
  then show ?thesis by simp
next
  case False
  with assms have xpos: "0 < x" by simp
  define e where "e = binade x"
  define u :: rat where "u = 2 powi (e - 52)"
  have upos: "0 < u" by (simp add: u_def)
  from xpos binade_bounds [of x] have b: "2 powi e \<le> x" by (simp add: e_def)
  have f: "fl x = of_int (rhe (x / u)) * u"
    using xpos by (simp add: fl_def Let_def e_def u_def)
  have "rat_of_int (rhe (x / u)) * u \<le> (x / u + 1 / 2) * u"
    using rhe_le [of "x / u"] upos by (simp add: mult_le_cancel_right)
  also have "\<dots> = x + u / 2" using upos by (simp add: field_simps)
  finally have 1: "fl x \<le> x + u / 2" by (simp only: f)
  from pow2_split(1) [OF u_def] b have "2 ^ 52 * u \<le> x" by simp
  then have "u / 2 \<le> x / 2 ^ 53" by simp
  with 1 show ?thesis by (simp add: algebra_simps)
qed

lemma round1_mono: "x \<le> y \<Longrightarrow> round1 x \<le> round1 y"
proof -
  assume "x \<le> y"
  then have "fmul x 10 \<le> fmul y 10"
    unfolding fmul_def by (intro fl_mono) simp
  then have "rhe (fmul x 10) \<le> rhe (fmul y 10)" by (rule rhe_mono)
  then have "rat_of_int (rhe (fmul x 10)) / 10 \<le> rat_of_int (rhe (fmul y 10)) / 10" by simp
  then show ?thesis unfolding round1_def fdiv_def by (rule fl_mono)
qed

lemma round1_0 [simp]: "round1 0 = 0"
  by code_simp

lemma round1_100 [simp]: "round1 100 = 100"
  by code_simp

text \<open>
  Three values as Python prints them: \<^verbatim>\<open>0.1\<close> and \<^verbatim>\<open>0.3\<close> are not binary fractions, and
  \<^verbatim>\<open>(49 / 80) * 100\<close> is \<^verbatim>\<open>61.25000000000001\<close>, one unit in the last place above 61.25.
\<close>

lemma binary64_examples:
  "fl (1 / 10) = 3602879701896397 / 2 ^ 55"
  "fl (3 / 10) = 5404319552844595 / 2 ^ 54"
  "fmul (fdiv 49 80) 100 = 8620171161763841 / 2 ^ 47"
  "8620171161763841 / 2 ^ 47 - 245 / 4 = (1 / 2 ^ 47 :: rat)"
  by code_simp+

section \<open>Properties of the pandas operations\<close>

lemma set_unique [simp]: "set (unique xs) = set xs"
  by (simp add: unique_def)

lemma distinct_unique [simp]: "distinct (unique xs)"
  by (simp add: unique_def)

lemma map_of_value_counts:
  "map_of (value_counts xs) l = (if l \<in> set xs then Some (count_list xs l) else None)"
proof -
  define ys where "ys = map (\<lambda>k. (k, count_list xs k)) (unique xs)"
  have fst_ys: "map fst ys = unique xs" by (simp add: ys_def comp_def)
  have d: "distinct (map fst ys)" by (simp add: fst_ys)
  then have "distinct (map fst (sort_key (\<lambda>(k, c). - int c) ys))"
    by (simp add: distinct_map)
  with d have "map_of (sort_key (\<lambda>(k, c). - int c) ys) = map_of ys"
    by (simp add: map_of_inject_set)
  moreover have "map_of ys l = (if l \<in> set xs then Some (count_list xs l) else None)"
    by (simp add: ys_def map_of_map_restrict restrict_map_def)
  ultimately show ?thesis by (simp add: value_counts_def ys_def)
qed

lemma map_of_series_mul:
  "map_of (series_mul s c) l = map_option (\<lambda>v. fmul v c) (map_of s l)"
  by (simp add: series_mul_def map_of_map)

lemma map_of_value_counts_normalize:
  "map_of (value_counts_normalize xs) l =
     map_option (\<lambda>c. fdiv (of_nat c) (of_nat (length xs))) (map_of (value_counts xs) l)"
  by (simp add: value_counts_normalize_def map_of_map)

lemma map_of_distribution:
  "map_of (series_mul (value_counts_normalize xs) 100) l =
     (if l \<in> set xs
      then Some (fmul (fdiv (of_nat (count_list xs l)) (of_nat (length xs))) 100)
      else None)"
  by (simp add: map_of_series_mul map_of_value_counts_normalize map_of_value_counts)

lemma value_counts_Nil [simp]: "value_counts [] = []"
  by (simp add: value_counts_def unique_def)

lemma fold_max_nat_ge: "x \<in> set ys \<Longrightarrow> (x::nat) \<le> fold max ys a"
proof -
  assume "x \<in> set ys"
  then have "x \<le> Max (set (a # ys))" by (intro Max_ge) auto
  then show ?thesis by (simp only: Max.set_eq_fold)
qed

lemma series_mode_head:
  assumes "series_mode xs = m # ms"
  shows "m \<in> set xs \<and> (\<forall>l. count_list xs l \<le> count_list xs m) \<and>
         (\<forall>l. count_list xs l = count_list xs m \<longrightarrow> m \<le> l)"
proof -
  define M where "M = fold max (map (count_list xs) (unique xs)) 0"
  define cands where "cands = filter (\<lambda>k. count_list xs k = M) (unique xs)"
  have sm: "series_mode xs = sort cands"
    by (simp add: series_mode_def Let_def M_def cands_def)
  have "m \<in> set (sort cands)" using assms sm by simp
  then have mc: "m \<in> set cands" by simp
  then have mx: "m \<in> set xs" and cm: "count_list xs m = M" by (simp_all add: cands_def)
  have le: "count_list xs l \<le> M" for l
  proof (cases "l \<in> set xs")
    case True
    then have "count_list xs l \<in> set (map (count_list xs) (unique xs))" by simp
    then show ?thesis unfolding M_def by (rule fold_max_nat_ge)
  next
    case False
    then show ?thesis by (simp add: count_list_0_iff)
  qed
  have least: "m \<le> l" if "count_list xs l = count_list xs m" for l
  proof -
    from mx have "0 < count_list xs m" by (simp add: count_list_0_iff zero_less_iff_neq_zero)
    with that have "l \<in> set xs" by (metis count_list_0_iff less_numeral_extra(3))
    with that cm have "l \<in> set cands" by (simp add: cands_def)
    then have "l \<in> set (m # ms)" using assms sm by (metis set_sort)
    moreover have "sorted (m # ms)" using assms sm by (metis sorted_sort)
    ultimately show ?thesis by auto
  qed
  from mx le cm least show ?thesis by simp
qed

lemma concat_all_Nil: "(\<And>x. x \<in> set xs \<Longrightarrow> f x = []) \<Longrightarrow> concat (map f xs) = []"
  by (induction xs) auto

lemma filter_disjoint_length:
  "(\<And>x. \<not> (P x \<and> Q x)) \<Longrightarrow> length (filter P xs) + length (filter Q xs) \<le> length xs"
  by (induction xs) auto

section \<open>Distributions\<close>

lemma ex_sixteen_sentiment:
  "fst (compute_distributions ex_sixteen) = [(''NEGATIVE'', 375 / 4), (''POSITIVE'', 25 / 4)]"
  by code_simp

lemma ex_sixteen_spec:
  "spec_distribution (map sentiment (rows ex_sixteen)) =
     [(''NEGATIVE'', 6600588203864883 / 2 ^ 46), (''POSITIVE'', 6980579422424269 / 2 ^ 50)]"
proof -
  have "series_mul (value_counts_normalize (map sentiment (rows ex_sixteen))) 100 =
      [(''NEGATIVE'', 375 / 4), (''POSITIVE'', 25 / 4)]"
    by code_simp
  moreover have "round1 (375 / 4) = 6600588203864883 / 2 ^ 46"
    by code_simp
  moreover have "round1 (25 / 4) = 6980579422424269 / 2 ^ 50"
    by code_simp
  ultimately show ?thesis by (simp add: spec_distribution_def)
qed

text \<open>
  Claim C3 as stated fails: \<open>compute_distributions\<close> does not round. With one positive
  document out of sixteen the sentiment distribution holds 6.25 and 93.75, where the
  rounded distribution of the specification holds 6.2 and 93.8.
\<close>

theorem distribution_not_rounded_counterexample:
  "fst (compute_distributions ex_sixteen) = [(''NEGATIVE'', 375 / 4), (''POSITIVE'', 25 / 4)] \<and>
   spec_distribution (map sentiment (rows ex_sixteen)) =
     [(''NEGATIVE'', 6600588203864883 / 2 ^ 46), (''POSITIVE'', 6980579422424269 / 2 ^ 50)] \<and>
   fst (compute_distributions ex_sixteen) \<noteq> spec_distribution (map sentiment (rows ex_sixteen))"
  by (simp add: ex_sixteen_sentiment ex_sixteen_spec)

text \<open>
  Claim C3, amended. For every corpus, each of the two distributions maps every observed
  label to its share of the corpus, the count of the label divided by the number of documents
  and multiplied by 100 in floating point, not rounded; a label that is not observed has no
  entry; and for a corpus without documents both distributions are empty.
\<close>

theorem distributions_unrounded:
  "map_of (fst (compute_distributions df)) l =
     (if l \<in> set (map sentiment (rows df))
      then Some (fmul (fdiv (of_nat (count_list (map sentiment (rows df)) l))
                   (of_nat (length (rows df)))) 100)
      else None) \<and>
   map_of (snd (compute_distributions df)) l =
     (if l \<in> set (map emotion (rows df))
      then Some (fmul (fdiv (of_nat (count_list (map emotion (rows df)) l))
                   (of_nat (length (rows df)))) 100)
      else None) \<and>
   compute_distributions (df\<lparr>rows := []\<rparr>) = ([], [])"
proof -
  have "compute_distributions (df\<lparr>rows := []\<rparr>) = ([], [])"
    by (simp add: compute_distributions_def series_mul_def value_counts_normalize_def)
  with map_of_distribution [of "map sentiment (rows df)" l]
    map_of_distribution [of "map emotion (rows df)" l]
  show ?thesis by (simp add: compute_distributions_def)
qed

theorem distributions_unrounded_witness:
  "map_of (fst (compute_distributions ex_sixteen)) ''POSITIVE'' = Some (25 / 4) \<and>
   map_of (fst (compute_distributions ex_sixteen)) ''NEUTRAL'' = None"
proof -
  have 1: "fmul (fdiv (of_nat (count_list (map sentiment (rows ex_sixteen)) ''POSITIVE''))
      (of_nat (length (rows ex_sixteen)))) 100 = 25 / 4"
    by code_simp
  have 2: "''POSITIVE'' \<in> set (map sentiment (rows ex_sixteen))"
    "''NEUTRAL'' \<notin> set (map sentiment (rows ex_sixteen))"
    by (simp_all add: ex_sixteen_def)
  from distributions_unrounded [of ex_sixteen "''POSITIVE''"]
    distributions_unrounded [of ex_sixteen "''NEUTRAL''"] 1 2
  show ?thesis by simp
qed

section \<open>Mood score\<close>

text \<open>The score as a function of the two sentiment shares and the emotion penalty.\<close>

lemma mood_score_eq:
  "mood_score s e =
     round1 (max 0 (min 100 (fadd 50 (fdiv (fsub (fsub (series_get s ''POSITIVE'' 0)
         (series_get s ''NEGATIVE'' 0))
       (fmul (fdiv (py_sum (map (\<lambda>l. series_get e l 0) neg_emotions)) 4) (fl (3 / 10)))) 2))))"
  by (simp add: mood_score_def Let_def)

lemma mood_core_mono:
  assumes "p \<le> p'" and "n' \<le> n"
  shows "round1 (max 0 (min 100 (fadd 50 (fdiv (fsub (fsub p n) k) 2))))
       \<le> round1 (max 0 (min 100 (fadd 50 (fdiv (fsub (fsub p' n') k) 2))))"
proof -
  have "fsub p n \<le> fsub p' n'"
    unfolding fsub_def using assms by (intro fl_mono) simp
  then have "fsub (fsub p n) k \<le> fsub (fsub p' n') k"
    unfolding fsub_def [of _ k] by (intro fl_mono) simp
  then have "fdiv (fsub (fsub p n) k) 2 \<le> fdiv (fsub (fsub p' n') k) 2"
    unfolding fdiv_def by (intro fl_mono) simp
  then have "fadd 50 (fdiv (fsub (fsub p n) k) 2) \<le> fadd 50 (fdiv (fsub (fsub p' n') k) 2)"
    unfolding fadd_def by (intro fl_mono) simp
  then have "max 0 (min 100 (fadd 50 (fdiv (fsub (fsub p n) k) 2)))
      \<le> max 0 (min 100 (fadd 50 (fdiv (fsub (fsub p' n') k) 2)))"
    by simp
  then show ?thesis by (rule round1_mono)
qed

text \<open>
  Claim C2. For all sentiment and emotion distributions, \<open>mood_score\<close> does not decrease when
  the POSITIVE percentage grows and does not increase when the NEGATIVE percentage grows, the
  other entries and the emotion distribution being the same (a missing entry counts as 0),
  and its value lies between 0 and 100.
\<close>

theorem mood_score_monotone_bounded:
  "(series_get s ''NEGATIVE'' 0 = series_get s' ''NEGATIVE'' 0 \<and>
    series_get s ''POSITIVE'' 0 \<le> series_get s' ''POSITIVE'' 0
      \<longrightarrow> mood_score s e \<le> mood_score s' e) \<and>
   (series_get s ''POSITIVE'' 0 = series_get s' ''POSITIVE'' 0 \<and>
    series_get s ''NEGATIVE'' 0 \<le> series_get s' ''NEGATIVE'' 0
      \<longrightarrow> mood_score s' e \<le> mood_score s e) \<and>
   0 \<le> mood_score s e \<and> mood_score s e \<le> 100"
proof (intro conjI impI)
  assume "series_get s ''NEGATIVE'' 0 = series_get s' ''NEGATIVE'' 0 \<and>
    series_get s ''POSITIVE'' 0 \<le> series_get s' ''POSITIVE'' 0"
  then show "mood_score s e \<le> mood_score s' e"
    unfolding mood_score_eq by (intro mood_core_mono) simp_all
next
  assume "series_get s ''POSITIVE'' 0 = series_get s' ''POSITIVE'' 0 \<and>
    series_get s ''NEGATIVE'' 0 \<le> series_get s' ''NEGATIVE'' 0"
  then show "mood_score s' e \<le> mood_score s e"
    unfolding mood_score_eq by (intro mood_core_mono) simp_all
next
  have "round1 0 \<le> mood_score s e"
    unfolding mood_score_eq by (intro round1_mono) simp
  then show "0 \<le> mood_score s e" by simp
next
  have "mood_score s e \<le> round1 100"
    unfolding mood_score_eq by (intro round1_mono) simp
  then show "mood_score s e \<le> 100" by simp
qed

theorem mood_score_monotone_bounded_witness:
  "mood_score [(''POSITIVE'', 50), (''NEGATIVE'', 25), (''NEUTRAL'', 25)]
       [(''joy'', 50), (''anger'', 25), (''neutral'', 25)]
     \<le> mood_score [(''POSITIVE'', 75), (''NEGATIVE'', 25)]
       [(''joy'', 50), (''anger'', 25), (''neutral'', 25)] \<and>
   mood_score [(''POSITIVE'', 50), (''NEGATIVE'', 50)]
       [(''joy'', 50), (''anger'', 25), (''neutral'', 25)]
     \<le> mood_score [(''POSITIVE'', 50), (''NEGATIVE'', 25), (''NEUTRAL'', 25)]
       [(''joy'', 50), (''anger'', 25), (''neutral'', 25)] \<and>
   mood_score [(''POSITIVE'', 50), (''NEGATIVE'', 25), (''NEUTRAL'', 25)]
       [(''joy'', 50), (''anger'', 25), (''neutral'', 25)] \<le> 100"
  using mood_score_monotone_bounded [of "[(''POSITIVE'', 50), (''NEGATIVE'', 25), (''NEUTRAL'', 25)]"
      "[(''POSITIVE'', 75), (''NEGATIVE'', 25)]" "[(''joy'', 50), (''anger'', 25), (''neutral'', 25)]"]
    mood_score_monotone_bounded [of "[(''POSITIVE'', 50), (''NEGATIVE'', 25), (''NEUTRAL'', 25)]"
      "[(''POSITIVE'', 50), (''NEGATIVE'', 50)]" "[(''joy'', 50), (''anger'', 25), (''neutral'', 25)]"]
  by (simp add: series_get_def)

section \<open>Volatility\<close>

text \<open>
  Claim C4, at an input where the code fails it. On the distribution of a corpus with a single
  emotion, \<open>{joy: 100}\<close>, the only value is both the maximum and the minimum (labels that do
  not occur have no entry), so the concentration is \<open>0\<close> and \<open>volatility_index\<close> returns
  \<open>100\<close>, the greatest value, where the claim says \<open>0\<close>. With a second label the value is
  low as the comment and the docstring of the source say it should be: \<open>2\<close> on
  \<open>{joy: 99, anger: 1}\<close> and \<open>0\<close> on \<open>{joy: 100, anger: 0}\<close>. On the empty distribution
  and on \<open>{joy: 50, anger: 50}\<close> the code returns what the claim says.
\<close>

theorem volatility_single_emotion_is_100:
  "volatility_index [(''joy'', 100)] = 100 \<and>
   volatility_index [(''joy'', 99), (''anger'', 1)] = 2 \<and>
   volatility_index [(''joy'', 100), (''anger'', 0)] = 0 \<and>
   volatility_index [] = 0 \<and>
   volatility_index [(''joy'', 50), (''anger'', 50)] = 100"
proof (intro conjI)
  show "volatility_index [(''joy'', 100)] = 100"
    apply (simp add: volatility_index_def Let_def)
    apply code_simp
    done
  show "volatility_index [(''joy'', 99), (''anger'', 1)] = 2"
    apply (simp add: volatility_index_def Let_def)
    apply code_simp
    done
  show "volatility_index [(''joy'', 100), (''anger'', 0)] = 0"
    apply (simp add: volatility_index_def Let_def)
    apply code_simp
    done
  show "volatility_index [] = 0"
    by (simp add: volatility_index_def)
  show "volatility_index [(''joy'', 50), (''anger'', 50)] = 100"
    apply (simp add: volatility_index_def Let_def)
    apply code_simp
    done
qed

section \<open>The end-to-end scenario\<close>

text \<open>
  Claim C1. For the four documents with sentiments POSITIVE, POSITIVE, NEGATIVE, NEUTRAL and
  emotions joy, joy, anger, neutral, \<open>compute_distributions\<close> yields the sentiment
  distribution \<open>{POSITIVE: 50, NEGATIVE: 25, NEUTRAL: 25}\<close> and the emotion distribution
  \<open>{joy: 50, anger: 25, neutral: 25}\<close>; on these \<open>mood_score\<close> is the float \<open>61.6\<close> and
  \<open>volatility_index\<close> is \<open>75\<close>.
\<close>

theorem end_to_end_scenario:
  "compute_distributions ex_scenario =
     ([(''POSITIVE'', 50), (''NEGATIVE'', 25), (''NEUTRAL'', 25)],
      [(''joy'', 50), (''anger'', 25), (''neutral'', 25)]) \<and>
   mood_score (fst (compute_distributions ex_scenario)) (snd (compute_distributions ex_scenario))
     = fl (616 / 10) \<and>
   volatility_index (snd (compute_distributions ex_scenario)) = 75"
proof -
  have d: "compute_distributions ex_scenario =
     ([(''POSITIVE'', 50), (''NEGATIVE'', 25), (''NEUTRAL'', 25)],
      [(''joy'', 50), (''anger'', 25), (''neutral'', 25)])"
    by code_simp
  have m: "mood_score [(''POSITIVE'', 50), (''NEGATIVE'', 25), (''NEUTRAL'', 25)]
      [(''joy'', 50), (''anger'', 25), (''neutral'', 25)] = fl (616 / 10)"
    by code_simp
  have v: "volatility_index [(''joy'', 50), (''anger'', 25), (''neutral'', 25)] = 75"
    apply (simp add: volatility_index_def Let_def)
    apply code_simp
    done
  from d m v show ?thesis by simp
qed

section \<open>Topic-emotion correlation\<close>

lemma ex_tagged_corr:
  "topic_emotion_correlation ex_tagged =
     Some [\<lparr>ce_topic = 0, ce_emotion = ''joy'', ce_percentage = py_round1 (fmul (fdiv 1 1) 100)\<rparr>]"
  by (simp add: topic_emotion_correlation_def ex_tagged_def unique_def Let_def
      value_counts_normalize_def value_counts_def series_mul_def)

text \<open>
  Claim C7. For every table with a topic column, no entry returned by
  \<open>topic_emotion_correlation\<close> has topic \<open>-1\<close>.
\<close>

theorem correlation_never_outlier:
  assumes "topic_emotion_correlation df = Some entries" and "e \<in> set entries"
  shows "ce_topic e \<noteq> - 1"
  using assms
  by (auto simp: topic_emotion_correlation_def Let_def split: if_splits)

theorem correlation_never_outlier_witness:
  "topic_emotion_correlation ex_tagged =
     Some [\<lparr>ce_topic = 0, ce_emotion = ''joy'', ce_percentage = py_round1 (fmul (fdiv 1 1) 100)\<rparr>]
   \<and> ce_topic \<lparr>ce_topic = 0, ce_emotion = ''joy'', ce_percentage = py_round1 (fmul (fdiv 1 1) 100)\<rparr> \<noteq> - 1"
proof -
  have m: "\<lparr>ce_topic = 0, ce_emotion = ''joy'', ce_percentage = py_round1 (fmul (fdiv 1 1) 100)\<rparr>
      \<in> set [\<lparr>ce_topic = 0, ce_emotion = ''joy'', ce_percentage = py_round1 (fmul (fdiv 1 1) 100)\<rparr>]"
    by simp
  from ex_tagged_corr correlation_never_outlier [OF ex_tagged_corr m] show ?thesis
    by (rule conjI)
qed

text \<open>
  Claim C10. \<open>topic_emotion_correlation\<close> returns the absent result exactly when the table has
  no topic column; when the column is present but every document is an outlier (or there is
  no document at all) it returns an empty table of entries instead.
\<close>

theorem correlation_absent_iff_no_topic:
  "(topic_emotion_correlation df = None \<longleftrightarrow> \<not> has_topic df) \<and>
   (has_topic df \<and> (\<forall>d \<in> set (rows df). topic d = - 1) \<longrightarrow> topic_emotion_correlation df = Some [])"
proof (intro conjI impI)
  show "topic_emotion_correlation df = None \<longleftrightarrow> \<not> has_topic df"
    by (simp add: topic_emotion_correlation_def)
next
  assume a: "has_topic df \<and> (\<forall>d \<in> set (rows df). topic d = - 1)"
  then have "\<And>t. t \<in> set (unique (map topic (rows df))) \<Longrightarrow> t = - 1" by auto
  then have "concat (map (\<lambda>t.
        if t = - 1 then []
        else (let topic_df = filter (\<lambda>d. topic d = t) (rows df);
                  emotion_dist = series_mul (value_counts_normalize (map emotion topic_df)) 100
              in map (\<lambda>(e, pct). \<lparr>ce_topic = t, ce_emotion = e, ce_percentage = py_round1 pct\<rparr>)
                   emotion_dist))
        (unique (map topic (rows df)))) = []"
    by (intro concat_all_Nil) simp
  with a show "topic_emotion_correlation df = Some []"
    by (simp add: topic_emotion_correlation_def)
qed

theorem correlation_absent_iff_no_topic_witness:
  "topic_emotion_correlation ex_untagged = None \<and>
   topic_emotion_correlation ex_outliers = Some [] \<and>
   topic_emotion_correlation \<lparr>has_topic = True, rows = []\<rparr> = Some []"
proof -
  have 1: "\<not> has_topic ex_untagged" by (simp add: ex_untagged_def)
  have 2: "has_topic ex_outliers \<and> (\<forall>d \<in> set (rows ex_outliers). topic d = - 1)"
    by (simp add: ex_outliers_def)
  have 3: "has_topic \<lparr>has_topic = True, rows = []\<rparr> \<and>
      (\<forall>d \<in> set (rows \<lparr>has_topic = True, rows = []\<rparr>). topic d = - 1)"
    by simp
  from correlation_absent_iff_no_topic [of ex_untagged] 1
  have "topic_emotion_correlation ex_untagged = None" by blast
  moreover from correlation_absent_iff_no_topic [of ex_outliers] 2
  have "topic_emotion_correlation ex_outliers = Some []" by blast
  moreover from correlation_absent_iff_no_topic [of "\<lparr>has_topic = True, rows = []\<rparr>"] 3
  have "topic_emotion_correlation \<lparr>has_topic = True, rows = []\<rparr> = Some []" by blast
  ultimately show ?thesis by blast
qed

section \<open>Narratives\<close>

lemma narratives_loop_mem:
  "narratives_loop docs info = Inr ns \<Longrightarrow> s \<in> set ns \<Longrightarrow>
     \<exists>row \<in> set info. narrative_of docs row = Inr (Some s)"
proof (induction info arbitrary: ns)
  case Nil
  then show ?case by simp
next
  case (Cons row info)
  from Cons.prems(1) obtain new rest where
    n: "narrative_of docs row = Inr new" and r: "narratives_loop docs info = Inr rest"
    and ns: "ns = (case new of None \<Rightarrow> [] | Some n \<Rightarrow> [n]) @ rest"
    by (auto split: sum.splits)
  from Cons.prems(2) ns consider "new = Some s" | "s \<in> set rest"
    by (auto split: option.splits)
  then show ?case
  proof cases
    case 1
    with n show ?thesis by simp
  next
    case 2
    from Cons.IH [OF r 2] show ?thesis by auto
  qed
qed

lemma sort_values_document_count_set:
  assumes "sort_values_document_count tie ns = Inr r"
  shows "set r = set ns"
proof -
  define keys where "keys = map (\<lambda>n. int (document_count n)) ns"
  define indexer where
    "indexer = sort_key (\<lambda>i. - (keys ! i)) (sort_key (tie keys) [0..<length ns])"
  from assms have r: "r = map (\<lambda>i. ns ! i) indexer"
    by (auto simp: sort_values_document_count_def Let_def keys_def indexer_def split: if_splits)
  have "set indexer = {0..<length ns}" by (simp add: indexer_def)
  then have "set r = (\<lambda>i. ns ! i) ` {0..<length ns}" by (simp add: r)
  also have "\<dots> = set ns" using nth_image [of "length ns" ns] by simp
  finally show ?thesis .
qed

lemma detect_narratives_mem:
  assumes "detect_narratives tie df topic_info = Inr (Some ns)" and "s \<in> set ns"
  shows "\<exists>info row. topic_info = Some info \<and> has_topic df \<and> row \<in> set info \<and>
           narrative_of (rows df) row = Inr (Some s)"
proof -
  from assms(1) obtain info where ti: "topic_info = Some info"
    by (auto simp: detect_narratives_def split: option.splits)
  from assms(1) ti have ht: "has_topic df"
    by (auto simp: detect_narratives_def split: if_splits)
  from assms(1) ti ht obtain raw where
    l: "narratives_loop (rows df) info = Inr raw" and
    so: "sort_values_document_count tie raw = Inr ns"
    by (auto simp: detect_narratives_def split: sum.splits)
  from so have "set ns = set raw" by (rule sort_values_document_count_set)
  with assms(2) have "s \<in> set raw" by simp
  from narratives_loop_mem [OF l this] ti ht show ?thesis by blast
qed

lemma narrative_of_Some:
  assumes "narrative_of docs row = Inr (Some s)"
  shows "topic_id s = Topic row \<and> Topic row \<noteq> - 1 \<and>
         filter (\<lambda>d. topic d = topic_id s) docs \<noteq> [] \<and>
         document_count s = length (filter (\<lambda>d. topic d = topic_id s) docs) \<and>
         series_first (series_mode (map emotion (filter (\<lambda>d. topic d = topic_id s) docs))) =
           Inr (dominant_emotion s)"
  using assms
  by (auto simp: narrative_of_def Let_def split: if_splits sum.splits)

lemma narrative_of_pcts:
  assumes "narrative_of docs row = Inr (Some s)"
  shows "\<exists>p n t. 0 < t \<and> p + n \<le> t \<and>
     positive_pct s = round1 (fmul (fl (of_nat p / of_nat t)) 100) \<and>
     negative_pct s = round1 (fmul (fl (of_nat n / of_nat t)) 100)"
proof -
  define sel where "sel = filter (\<lambda>d. topic d = Topic row) docs"
  define p where "p = length (filter (\<lambda>d. sentiment d = ''POSITIVE'') sel)"
  define n where "n = length (filter (\<lambda>d. sentiment d = ''NEGATIVE'') sel)"
  from assms have ne: "sel \<noteq> []"
    by (auto simp: narrative_of_def Let_def sel_def split: if_splits)
  then have t: "0 < length sel" by simp
  have pn: "p + n \<le> length sel"
    unfolding p_def n_def by (rule filter_disjoint_length) auto
  from assms ne have "positive_pct s = round1 (fmul (fl (of_nat p / of_nat (length sel))) 100)"
    "negative_pct s = round1 (fmul (fl (of_nat n / of_nat (length sel))) 100)"
    by (auto simp: narrative_of_def Let_def sel_def p_def n_def fdiv_def
        split: if_splits sum.splits)
  with t pn show ?thesis by blast
qed

lemma pct_upper:
  assumes "0 \<le> q"
  shows "round1 (fmul (fl q) 100) \<le>
     (100 * (1 + 1 / 2 ^ 53) ^ 3 * q + 1 / 20) * (1 + 1 / 2 ^ 53)"
proof -
  define a where "a = fl q"
  define b where "b = fl (a * 100)"
  define c where "c = fl (b * 10)"
  define r where "r = rat_of_int (rhe c)"
  have a0: "0 \<le> a" unfolding a_def using assms by (rule fl_nonneg)
  have b0: "0 \<le> b" unfolding b_def using a0 by (intro fl_nonneg) simp
  have c0: "0 \<le> c" unfolding c_def using b0 by (intro fl_nonneg) simp
  have r0: "0 \<le> r" unfolding r_def using rhe_nonneg [OF c0] by simp
  have a1: "a \<le> q * (1 + 1 / 2 ^ 53)" unfolding a_def using assms by (rule fl_rel_upper)
  have b1: "b \<le> a * 100 * (1 + 1 / 2 ^ 53)"
    unfolding b_def using a0 by (intro fl_rel_upper) simp
  have c1: "c \<le> b * 10 * (1 + 1 / 2 ^ 53)"
    unfolding c_def using b0 by (intro fl_rel_upper) simp
  have r1: "r \<le> c + 1 / 2" unfolding r_def by (rule rhe_le)
  have d1: "fl (r / 10) \<le> r / 10 * (1 + 1 / 2 ^ 53)"
    using r0 by (intro fl_rel_upper) simp
  have "round1 (fmul (fl q) 100) = fl (r / 10)"
    by (simp add: round1_def fmul_def fdiv_def r_def c_def b_def a_def)
  also note d1
  also have "r / 10 * (1 + 1 / 2 ^ 53) \<le>
      (100 * (1 + 1 / 2 ^ 53) ^ 3 * q + 1 / 20) * (1 + 1 / 2 ^ 53)"
    using a1 b1 c1 r1 by (simp add: power3_eq_cube)
  finally show ?thesis .
qed

lemma detect_narratives_single:
  assumes "has_topic df" and "narratives_loop (rows df) info = Inr [n]"
  shows "detect_narratives tie df (Some info) = Inr (Some [n])"
  using assms by (simp add: detect_narratives_def sort_values_document_count_def)

lemma detect_narratives_none:
  assumes "has_topic df" and "narratives_loop (rows df) info = Inr []"
  shows "detect_narratives tie df (Some info) = Inl KeyError"
  using assms by (simp add: detect_narratives_def sort_values_document_count_def)

lemma ex_tie_narratives:
  "detect_narratives tie ex_tie (Some [\<lparr>Topic = 0, Name = Some ''0_tax_budget''\<rparr>]) =
     Inr (Some [ex_tie_summary])"
proof (rule detect_narratives_single)
  show "has_topic ex_tie" by (simp add: ex_tie_def)
  show "narratives_loop (rows ex_tie) [\<lparr>Topic = 0, Name = Some ''0_tax_budget''\<rparr>] =
      Inr [ex_tie_summary]"
    by code_simp
qed

lemma ex_split_narratives:
  "detect_narratives tie ex_split (Some [\<lparr>Topic = 0, Name = Some ''0_tax_budget''\<rparr>]) =
     Inr (Some [ex_split_summary])"
proof (rule detect_narratives_single)
  show "has_topic ex_split" by (simp add: ex_split_def)
  show "narratives_loop (rows ex_split) [\<lparr>Topic = 0, Name = Some ''0_tax_budget''\<rparr>] =
      Inr [ex_split_summary]"
    by code_simp
qed

text \<open>
  Two summaries with the same count come out in either order, depending on the choice of the
  sort; a summary with a greater count comes first under every choice.
\<close>

lemma sort_values_document_count_ties:
  "sort_values_document_count (\<lambda>keys i. i) [ex_tie_summary, ex_summary] =
     Inr [ex_tie_summary, ex_summary]"
  "sort_values_document_count (\<lambda>keys i. 1 - i) [ex_tie_summary, ex_summary] =
     Inr [ex_summary, ex_tie_summary]"
  "sort_values_document_count tie [ex_summary, ex_split_summary] =
     Inr [ex_split_summary, ex_summary]"
  by (auto simp add: sort_values_document_count_def ex_tie_summary_def ex_summary_def
      ex_split_summary_def upt_rec Let_def)

text \<open>
  Claim C5, at an input where it fails. When every row of the topic-info table is the
  outlier topic, or matches no document, or the table is empty, no summary is collected and
  sorting the frame built from the empty list raises \<^verbatim>\<open>KeyError\<close>: \<open>detect_narratives\<close>
  has no result there, while \<open>topic_emotion_correlation\<close> returns its empty table on the
  same documents.
\<close>

theorem detect_narratives_no_summary_raises:
  "detect_narratives tie ex_outliers (Some [\<lparr>Topic = - 1, Name = Some ''-1_the_of''\<rparr>]) = Inl KeyError \<and>
   detect_narratives tie ex_tagged (Some [\<lparr>Topic = 3, Name = Some ''3_tax_budget''\<rparr>]) = Inl KeyError \<and>
   detect_narratives tie \<lparr>has_topic = True, rows = []\<rparr> (Some []) = Inl KeyError \<and>
   topic_emotion_correlation ex_outliers = Some []"
proof (intro conjI)
  show "detect_narratives tie ex_outliers (Some [\<lparr>Topic = - 1, Name = Some ''-1_the_of''\<rparr>]) =
      Inl KeyError"
  proof (rule detect_narratives_none)
    show "has_topic ex_outliers" by (simp add: ex_outliers_def)
    show "narratives_loop (rows ex_outliers) [\<lparr>Topic = - 1, Name = Some ''-1_the_of''\<rparr>] = Inr []"
      by code_simp
  qed
  show "detect_narratives tie ex_tagged (Some [\<lparr>Topic = 3, Name = Some ''3_tax_budget''\<rparr>]) =
      Inl KeyError"
  proof (rule detect_narratives_none)
    show "has_topic ex_tagged" by (simp add: ex_tagged_def)
    show "narratives_loop (rows ex_tagged) [\<lparr>Topic = 3, Name = Some ''3_tax_budget''\<rparr>] = Inr []"
      by code_simp
  qed
  show "detect_narratives tie \<lparr>has_topic = True, rows = []\<rparr> (Some []) = Inl KeyError"
    by (rule detect_narratives_none) simp_all
  show "topic_emotion_correlation ex_outliers = Some []"
    by code_simp
qed

text \<open>
  Claim C6 as stated fails: for the emotions joy, anger (one each) the first label to reach
  the maximum count is joy, and \<open>detect_narratives\<close> reports anger.
\<close>

theorem dominant_emotion_tie_counterexample:
  "(\<forall>tie. detect_narratives tie ex_tie (Some [\<lparr>Topic = 0, Name = Some ''0_tax_budget''\<rparr>]) =
     Inr (Some [ex_tie_summary])) \<and>
   dominant_emotion ex_tie_summary = ''anger'' \<and>
   spec_dominant_emotion (map emotion (filter (\<lambda>d. topic d = 0) (rows ex_tie))) = Some ''joy''"
proof -
  have "dominant_emotion ex_tie_summary = ''anger''"
    by (simp add: ex_tie_summary_def)
  moreover have
    "spec_dominant_emotion (map emotion (filter (\<lambda>d. topic d = 0) (rows ex_tie))) = Some ''joy''"
    by code_simp
  ultimately show ?thesis using ex_tie_narratives by simp
qed

text \<open>
  Claim C6, amended. For every topic summary that \<open>detect_narratives\<close> returns, whatever
  order the sort gives to rows of equal count, the dominant
  emotion is a label of the selection (the documents of that topic) with the greatest count,
  and among the labels of that count it is the least one in the order of strings
  (character by character, by code point).
\<close>

theorem dominant_emotion_least_mode:
  assumes "detect_narratives tie df topic_info = Inr (Some ns)" and "s \<in> set ns"
  shows "dominant_emotion s \<in> set (map emotion (filter (\<lambda>d. topic d = topic_id s) (rows df))) \<and>
    (\<forall>l. count_list (map emotion (filter (\<lambda>d. topic d = topic_id s) (rows df))) l
          \<le> count_list (map emotion (filter (\<lambda>d. topic d = topic_id s) (rows df))) (dominant_emotion s)) \<and>
    (\<forall>l. count_list (map emotion (filter (\<lambda>d. topic d = topic_id s) (rows df))) l
          = count_list (map emotion (filter (\<lambda>d. topic d = topic_id s) (rows df))) (dominant_emotion s)
        \<longrightarrow> dominant_emotion s \<le> l)"
proof -
  from detect_narratives_mem [OF assms] obtain row where
    "narrative_of (rows df) row = Inr (Some s)" by blast
  from narrative_of_Some [OF this]
  have "series_first (series_mode (map emotion (filter (\<lambda>d. topic d = topic_id s) (rows df)))) =
           Inr (dominant_emotion s)" by blast
  then obtain ms where
    "series_mode (map emotion (filter (\<lambda>d. topic d = topic_id s) (rows df))) = dominant_emotion s # ms"
    by (auto simp: series_first_def split: list.splits)
  from series_mode_head [OF this] show ?thesis .
qed

theorem dominant_emotion_least_mode_witness:
  "(\<forall>tie. detect_narratives tie ex_tie (Some [\<lparr>Topic = 0, Name = Some ''0_tax_budget''\<rparr>]) =
     Inr (Some [ex_tie_summary])) \<and>
   count_list (map emotion (filter (\<lambda>d. topic d = topic_id ex_tie_summary) (rows ex_tie))) ''joy'' =
   count_list (map emotion (filter (\<lambda>d. topic d = topic_id ex_tie_summary) (rows ex_tie)))
     (dominant_emotion ex_tie_summary) \<and>
   dominant_emotion ex_tie_summary \<le> ''joy''"
proof -
  have m: "ex_tie_summary \<in> set [ex_tie_summary]" by simp
  have c: "count_list (map emotion (filter (\<lambda>d. topic d = topic_id ex_tie_summary) (rows ex_tie))) ''joy'' =
      count_list (map emotion (filter (\<lambda>d. topic d = topic_id ex_tie_summary) (rows ex_tie)))
        (dominant_emotion ex_tie_summary)"
    by code_simp
  from dominant_emotion_least_mode [OF ex_tie_narratives m] c
  have "dominant_emotion ex_tie_summary \<le> ''joy''" by blast
  with ex_tie_narratives c show ?thesis by blast
qed

text \<open>
  Claim C8 as stated fails: for 31 positive and 49 negative documents out of 80 in one topic
  the two percentages are 38.8 and 61.3, since \<^verbatim>\<open>(49 / 80) * 100\<close> is
  \<^verbatim>\<open>61.25000000000001\<close> in binary64, and their sum exceeds 100.
\<close>

theorem pct_sum_counterexample:
  "(\<forall>tie. detect_narratives tie ex_split (Some [\<lparr>Topic = 0, Name = Some ''0_tax_budget''\<rparr>]) =
     Inr (Some [ex_split_summary])) \<and>
   100 < positive_pct ex_split_summary + negative_pct ex_split_summary"
proof -
  have "100 < positive_pct ex_split_summary + negative_pct ex_split_summary"
    by (simp add: ex_split_summary_def)
  with ex_split_narratives show ?thesis by simp
qed

text \<open>
  Claim C8, amended. For every topic summary that \<open>detect_narratives\<close> returns, whatever
  order the sort gives to rows of equal count, the document
  count is the number of documents of the table with that topic id, and the sum of the two
  independently rounded percentages stays below 100.1 up to floating-point error.
\<close>

theorem summary_count_and_pct_bound:
  assumes "detect_narratives tie df topic_info = Inr (Some ns)" and "s \<in> set ns"
  shows "document_count s = length (filter (\<lambda>d. topic d = topic_id s) (rows df)) \<and>
         positive_pct s + negative_pct s \<le> 1001 / 10 + 1 / 10 ^ 9"
proof -
  from detect_narratives_mem [OF assms] obtain row where
    r: "narrative_of (rows df) row = Inr (Some s)" by blast
  from narrative_of_Some [OF r]
  have dc: "document_count s = length (filter (\<lambda>d. topic d = topic_id s) (rows df))" by blast
  from narrative_of_pcts [OF r] obtain p n t where t: "0 < t" and pn: "p + n \<le> t"
    and pp: "positive_pct s = round1 (fmul (fl (of_nat p / of_nat t)) 100)"
    and np: "negative_pct s = round1 (fmul (fl (of_nat n / of_nat t)) 100)"
    by blast
  define q :: rat where "q = of_nat p / of_nat t"
  define q' :: rat where "q' = of_nat n / of_nat t"
  have q0: "0 \<le> q" "0 \<le> q'" by (simp_all add: q_def q'_def)
  have "q + q' = rat_of_nat (p + n) / of_nat t" by (simp add: q_def q'_def add_divide_distrib)
  also have "\<dots> \<le> 1" using pn t by simp
  finally have s1: "q + q' \<le> 1" .
  from pct_upper [OF q0(1)] pct_upper [OF q0(2)] s1
  have "round1 (fmul (fl q) 100) + round1 (fmul (fl q') 100) \<le> 1001 / 10 + 1 / 10 ^ 9"
    by (simp add: power3_eq_cube)
  with dc pp np show ?thesis by (simp add: q_def q'_def)
qed

theorem summary_count_and_pct_bound_witness:
  "(\<forall>tie. detect_narratives tie ex_split (Some [\<lparr>Topic = 0, Name = Some ''0_tax_budget''\<rparr>]) =
     Inr (Some [ex_split_summary])) \<and>
   document_count ex_split_summary =
     length (filter (\<lambda>d. topic d = topic_id ex_split_summary) (rows ex_split)) \<and>
   positive_pct ex_split_summary + negative_pct ex_split_summary \<le> 1001 / 10 + 1 / 10 ^ 9"
proof -
  have m: "ex_split_summary \<in> set [ex_split_summary]" by simp
  have a: "\<forall>tie. detect_narratives tie ex_split (Some [\<lparr>Topic = 0, Name = Some ''0_tax_budget''\<rparr>]) =
     Inr (Some [ex_split_summary])"
    using ex_split_narratives by simp
  from a summary_count_and_pct_bound [OF ex_split_narratives m]
  show ?thesis by (rule conjI)
qed

section \<open>Insights\<close>

text \<open>
  Claim C9. \<open>get_insights\<close> always returns at least three insights, the mood statement, the
  emotion statement and the sample-size statement in this order, and exactly four, the last
  one about the top narrative, when the topic summaries are present and non-empty.
\<close>

theorem insights_count_and_order:
  "3 \<le> length (get_insights df sentiment_pct emotion_pct mood narratives) \<and>
   map kind_of (take 3 (get_insights df sentiment_pct emotion_pct mood narratives)) =
     [MoodStatement, EmotionStatement, SampleSizeStatement] \<and>
   (\<forall>ns. narratives = Some ns \<and> ns \<noteq> [] \<longrightarrow>
      length (get_insights df sentiment_pct emotion_pct mood narratives) = 4 \<and>
      kind_of (last (get_insights df sentiment_pct emotion_pct mood narratives)) = NarrativeStatement) \<and>
   (narratives = None \<or> narratives = Some [] \<longrightarrow>
      length (get_insights df sentiment_pct emotion_pct mood narratives) = 3)"
  by (auto simp: get_insights_def Let_def split: option.splits list.splits)

theorem insights_count_and_order_witness:
  "length (get_insights ex_tagged [(''POSITIVE'', 50), (''NEGATIVE'', 50)]
      [(''joy'', 50), (''anger'', 50)] 50 (Some [ex_summary])) = 4 \<and>
   length (get_insights ex_tagged [(''POSITIVE'', 50), (''NEGATIVE'', 50)]
      [(''joy'', 50), (''anger'', 50)] 50 None) = 3"
  using insights_count_and_order [of ex_tagged "[(''POSITIVE'', 50), (''NEGATIVE'', 50)]"
      "[(''joy'', 50), (''anger'', 50)]" 50 "Some [ex_summary]"]
    insights_count_and_order [of ex_tagged "[(''POSITIVE'', 50), (''NEGATIVE'', 50)]"
      "[(''joy'', 50), (''anger'', 50)]" 50 None]
  by simp

end
